theory Spec2Isabelle
  imports Main "HOL-Library.Word" "HOL-Library.Sublist" "HOL-Library.Multiset"
begin

section \<open>Go values shared by the three source files\<close>

text \<open>
  A Go function either returns or stops with a run-time panic (an index or a slice
  bound out of range). The panic is a value of the model.
\<close>

datatype 'a go = Panics | Returns 'a

text \<open>
  The error values the sources name, and any other one. Go compares errors with
  \<open>==\<close>; the model compares the constructors.
\<close>

datatype error = InsufficientReadQuorum | errFileNotFound | otherError string

type_synonym int64 = "64 word"

text \<open>
  \<open>time.Time\<close> after \<open>UTC()\<close> is an instant, counted here in nanoseconds;
  \<open>time.Duration\<close> is an \<open>int64\<close> count of nanoseconds. \<open>Time.Sub\<close> of the Go
  library returns the difference when a Duration can hold it and the largest or
  smallest Duration otherwise; \<open>Time.Add\<close> moves an instant by a Duration. The range
  of \<open>time.Time\<close> itself (hundreds of billions of years) is not modelled.
\<close>

type_synonym Time = int
type_synonym Duration = int

definition minDuration :: Duration where
  "minDuration = - (2 ^ 63)"

definition maxDuration :: Duration where
  "maxDuration = 2 ^ 63 - 1"

definition time_Sub :: "Time \<Rightarrow> Time \<Rightarrow> Duration" where
  "time_Sub t u =
     (let d = t - u
      in if minDuration \<le> d \<and> d \<le> maxDuration then d
         else if t < u then minDuration
         else maxDuration)"

definition time_Add :: "Time \<Rightarrow> Duration \<Rightarrow> Time" where
  "time_Add t d = t + d"

section \<open>The lock table and its snapshots (cmd/lockinfo-handlers.go)\<close>

text \<open>
  The lock table \<open>globalNSMutex\<close> is declared outside the three files; the
  handlers read the fields below. \<open>lockType\<close> and \<open>statusType\<close> are only copied.
  A Go map is read with \<open>range\<close>, which yields every entry once in an order the
  language leaves open: a map of the table is the list of its entries in the order
  one \<open>range\<close> loop yields them, so a statement about every list is a statement about
  every order. The keys of such a list are distinct.
\<close>

datatype lockType = debugRLockStr | debugWLockStr

datatype statusType = runningStatus | readyStatus | blockedStatus

record nsParam =
  volume :: string
  path :: string

record lockStat =
  total :: int64
  blocked :: int64
  granted :: int64

record debugLockInfo =
  lockSource :: string
  lType :: lockType
  status :: statusType
  since :: Time

record debugLockInfoPerVolumePath =
  counters :: lockStat
  lockInfo :: "(string \<times> debugLockInfo) list"

record nsLockMap =
  counters' :: lockStat
  debugLockMap :: "(nsParam \<times> debugLockInfoPerVolumePath) list"

record OpsLockState =
  OperationID :: string
  LockSource :: string
  LockType :: lockType
  Status :: statusType
  Since :: Time
  Duration :: Duration

text \<open>
  \<open>TotalBlockedLocks'\<close> is the field \<open>TotalBlockedLocks\<close> of \<open>VolumeLockInfo\<close>;
  \<open>SystemLockState\<close> has a field of the same name.
\<close>

record VolumeLockInfo =
  Bucket :: string
  Object :: string
  LocksOnObject :: int64
  LocksAcquiredOnObject :: int64
  TotalBlockedLocks' :: int64
  LockDetailsOnObject :: "OpsLockState list"

record SystemLockState =
  TotalLocks :: int64
  TotalBlockedLocks :: int64
  TotalAcquiredLocks :: int64
  LocksInfoPerObject :: "VolumeLockInfo list"

subsection \<open>getSystemLockState\<close>

text \<open>
  The inner loop of \<open>getSystemLockState\<close>: every operation record of one entry is
  appended to the entry's \<open>volLockInfo\<close>.
\<close>

fun systemLockDetails ::
  "Time \<Rightarrow> (string \<times> debugLockInfo) list \<Rightarrow> VolumeLockInfo \<Rightarrow> VolumeLockInfo" where
  "systemLockDetails timeNow [] volLockInfo = volLockInfo"
| "systemLockDetails timeNow ((opsID, li) # rest) volLockInfo =
     systemLockDetails timeNow rest
       (volLockInfo\<lparr>LockDetailsOnObject := LockDetailsOnObject volLockInfo @
          [\<lparr>OperationID = opsID, LockSource = lockSource li, LockType = lType li,
            Status = status li, Since = since li,
            Duration = time_Sub timeNow (since li)\<rparr>]\<rparr>)"

text \<open>The outer loop: one \<open>volLockInfo\<close> per entry, appended once its details are read.\<close>

fun systemLockLoop ::
  "Time \<Rightarrow> (nsParam \<times> debugLockInfoPerVolumePath) list \<Rightarrow> SystemLockState \<Rightarrow> SystemLockState" where
  "systemLockLoop timeNow [] lockState = lockState"
| "systemLockLoop timeNow ((param, debugLock) # rest) lockState =
     (let volLockInfo = \<lparr>Bucket = volume param, Object = path param,
            LocksOnObject = total (counters debugLock),
            LocksAcquiredOnObject = granted (counters debugLock),
            TotalBlockedLocks' = blocked (counters debugLock),
            LockDetailsOnObject = []\<rparr>;
          volLockInfo = systemLockDetails timeNow (lockInfo debugLock) volLockInfo
      in systemLockLoop timeNow rest
           (lockState\<lparr>LocksInfoPerObject := LocksInfoPerObject lockState @ [volLockInfo]\<rparr>))"

text \<open>
  \<open>getSystemLockState\<close> reads the clock once (\<open>timeNow\<close>) and the table under its
  mutex; it writes nothing to the table, and its error result is always nil.
\<close>

definition getSystemLockState :: "Time \<Rightarrow> nsLockMap \<Rightarrow> SystemLockState \<times> error option" where
  "getSystemLockState timeNow globalNSMutex =
     (let lockState = \<lparr>TotalLocks = total (counters' globalNSMutex),
            TotalBlockedLocks = blocked (counters' globalNSMutex),
            TotalAcquiredLocks = granted (counters' globalNSMutex),
            LocksInfoPerObject = []\<rparr>
      in (systemLockLoop timeNow (debugLockMap globalNSMutex) lockState, None))"

subsection \<open>listLocksInfo\<close>

text \<open>
  The inner loop of \<open>listLocksInfo\<close>. \<open>volLockInfo\<close> is declared outside the loop:
  each record that is old enough is appended to its details, and the value it has
  then is appended to \<open>volumeLocks\<close>. A copy appended earlier keeps the length its
  slice of details had, so later appends do not show in it.
\<close>

fun listLocksDetails ::
  "Time \<Rightarrow> Duration \<Rightarrow> (string \<times> debugLockInfo) list \<Rightarrow> VolumeLockInfo \<Rightarrow>
   VolumeLockInfo list \<Rightarrow> VolumeLockInfo \<times> VolumeLockInfo list" where
  "listLocksDetails timeNow relTime [] volLockInfo volumeLocks = (volLockInfo, volumeLocks)"
| "listLocksDetails timeNow relTime ((opsID, li) # rest) volLockInfo volumeLocks =
     (let elapsed = time_Sub timeNow (since li)
      in if elapsed < relTime
         then listLocksDetails timeNow relTime rest volLockInfo volumeLocks
         else (let volLockInfo = volLockInfo\<lparr>LockDetailsOnObject :=
                     LockDetailsOnObject volLockInfo @
                     [\<lparr>OperationID = opsID, LockSource = lockSource li, LockType = lType li,
                       Status = status li, Since = since li, Duration = elapsed\<rparr>]\<rparr>
               in listLocksDetails timeNow relTime rest volLockInfo
                    (volumeLocks @ [volLockInfo])))"

fun listLocksLoop ::
  "Time \<Rightarrow> string \<Rightarrow> string \<Rightarrow> Duration \<Rightarrow> (nsParam \<times> debugLockInfoPerVolumePath) list \<Rightarrow>
   VolumeLockInfo list \<Rightarrow> VolumeLockInfo list" where
  "listLocksLoop timeNow bucket pfx relTime [] volumeLocks = volumeLocks"
| "listLocksLoop timeNow bucket pfx relTime ((param, debugLock) # rest) volumeLocks =
     (if volume param \<noteq> bucket
      then listLocksLoop timeNow bucket pfx relTime rest volumeLocks
      else if \<not> prefix pfx (path param)
      then listLocksLoop timeNow bucket pfx relTime rest volumeLocks
      else (let volLockInfo = \<lparr>Bucket = volume param, Object = path param,
                  LocksOnObject = total (counters debugLock),
                  LocksAcquiredOnObject = granted (counters debugLock),
                  TotalBlockedLocks' = blocked (counters debugLock),
                  LockDetailsOnObject = []\<rparr>
            in listLocksLoop timeNow bucket pfx relTime rest
                 (snd (listLocksDetails timeNow relTime (lockInfo debugLock)
                         volLockInfo volumeLocks))))"

definition listLocksInfo ::
  "Time \<Rightarrow> nsLockMap \<Rightarrow> string \<Rightarrow> string \<Rightarrow> Duration \<Rightarrow> VolumeLockInfo list" where
  "listLocksInfo timeNow globalNSMutex bucket pfx relTime =
     listLocksLoop timeNow bucket pfx relTime (debugLockMap globalNSMutex) []"

subsection \<open>What the snapshots are compared with\<close>

text \<open>
  The detail record built from one operation record, the entry built from one table
  entry and a list of details, and the details of the records that are old enough,
  in the order the loop meets them.
\<close>

definition detailOf :: "Time \<Rightarrow> string \<times> debugLockInfo \<Rightarrow> OpsLockState" where
  "detailOf timeNow rec =
     \<lparr>OperationID = fst rec, LockSource = lockSource (snd rec), LockType = lType (snd rec),
      Status = status (snd rec), Since = since (snd rec),
      Duration = time_Sub timeNow (since (snd rec))\<rparr>"

definition entryOf :: "nsParam \<Rightarrow> debugLockInfoPerVolumePath \<Rightarrow> OpsLockState list \<Rightarrow> VolumeLockInfo" where
  "entryOf param debugLock details =
     \<lparr>Bucket = volume param, Object = path param,
      LocksOnObject = total (counters debugLock),
      LocksAcquiredOnObject = granted (counters debugLock),
      TotalBlockedLocks' = blocked (counters debugLock),
      LockDetailsOnObject = details\<rparr>"

definition oldEnough :: "Time \<Rightarrow> Duration \<Rightarrow> (string \<times> debugLockInfo) list \<Rightarrow> OpsLockState list" where
  "oldEnough timeNow relTime recs =
     map (detailOf timeNow) (filter (\<lambda>rec. relTime \<le> time_Sub timeNow (since (snd rec))) recs)"

fun nonemptyPrefixes :: "'a list \<Rightarrow> 'a list list" where
  "nonemptyPrefixes [] = []"
| "nonemptyPrefixes (x # xs) = [x] # map ((#) x) (nonemptyPrefixes xs)"

definition objectEntries ::
  "Time \<Rightarrow> string \<Rightarrow> string \<Rightarrow> Duration \<Rightarrow> nsParam \<times> debugLockInfoPerVolumePath \<Rightarrow> VolumeLockInfo list" where
  "objectEntries timeNow bucket pfx relTime e =
     (if volume (fst e) = bucket \<and> prefix pfx (path (fst e))
      then map (entryOf (fst e) (snd e)) (nonemptyPrefixes (oldEnough timeNow relTime (lockInfo (snd e))))
      else [])"

text \<open>
  Every detail record of a list of entries, the instant \<open>Since + Duration\<close> of a
  detail record, and the records whose age a Duration holds.
\<close>

definition allDetails :: "VolumeLockInfo list \<Rightarrow> OpsLockState list" where
  "allDetails volumeLocks = concat (map LockDetailsOnObject volumeLocks)"

definition sincePlusDuration :: "OpsLockState \<Rightarrow> Time" where
  "sincePlusDuration r = time_Add (Since r) (Duration r)"

definition fitsDuration :: "Time \<Rightarrow> OpsLockState \<Rightarrow> bool" where
  "fitsDuration timeNow r \<longleftrightarrow>
     minDuration \<le> timeNow - Since r \<and> timeNow - Since r \<le> maxDuration"

text \<open>
  A small table: object \<open>o\<close> of bucket \<open>b\<close> is held by two operations, object \<open>p\<close>
  of bucket \<open>c\<close> by one whose \<open>since\<close> is the zero instant.
\<close>

definition exampleObject :: debugLockInfoPerVolumePath where
  "exampleObject =
     \<lparr>counters = \<lparr>total = 2, blocked = 0, granted = 2\<rparr>,
      lockInfo =
        [(''op1'', \<lparr>lockSource = ''s1'', lType = debugRLockStr,
                   status = runningStatus, since = 10\<rparr>),
         (''op2'', \<lparr>lockSource = ''s2'', lType = debugRLockStr,
                   status = runningStatus, since = 20\<rparr>)]\<rparr>"

definition exampleLockMap :: nsLockMap where
  "exampleLockMap =
     \<lparr>counters' = \<lparr>total = 3, blocked = 1, granted = 2\<rparr>,
      debugLockMap =
        [(\<lparr>volume = ''b'', path = ''o''\<rparr>, exampleObject),
         (\<lparr>volume = ''c'', path = ''p''\<rparr>,
          \<lparr>counters = \<lparr>total = 1, blocked = 1, granted = 0\<rparr>,
           lockInfo =
             [(''op3'', \<lparr>lockSource = ''s3'', lType = debugWLockStr,
                        status = blockedStatus, since = 0\<rparr>)]\<rparr>)]\<rparr>"

section \<open>Admin peers, service commands and lock listing across peers\<close>

text \<open>
  The RPC client \<open>AuthRPCClient\<close>, its constructor \<open>newAuthRPCClient\<close>, the server
  configuration, \<open>isSSL\<close>, \<open>globalMinioAddr\<close> and the path constants are declared
  outside the three files. The client is a type parameter \<open>'c\<close> of the model, the
  others are fields of the environment \<open>adminEnv\<close>; \<open>adminServiceEndpoint\<close> stands
  for \<open>path.Join(reservedBucket, adminPath)\<close>. Of \<open>url.URL\<close> only \<open>Host\<close> is read.
\<close>

record credential =
  AccessKey :: string
  SecretKey :: string

record authConfig =
  accessKey :: string
  secretKey :: string
  serverAddr :: string
  secureConn :: bool
  serviceEndpoint :: string
  serviceName :: string

record URL =
  Host :: string

datatype 'c adminCmdRunner = localAdminClient | remoteAdminClient 'c

record 'c adminPeer =
  addr :: string
  cmdRunner :: "'c adminCmdRunner"

record 'c adminEnv =
  globalMinioAddr :: string
  serverCredential :: credential
  isSSL :: bool
  adminServiceEndpoint :: string
  newAuthRPCClient :: "authConfig \<Rightarrow> 'c"

subsection \<open>makeAdminPeers\<close>

text \<open>
  The loop over the endpoints. \<open>seenAddr\<close> is a Go \<open>map[string]bool\<close>; reading a
  key it does not hold gives \<open>false\<close>, so it is a function to \<open>bool\<close>.
\<close>

fun makeAdminPeers_loop ::
  "'c adminEnv \<Rightarrow> URL list \<Rightarrow> 'c adminPeer list \<Rightarrow> (string \<Rightarrow> bool) \<Rightarrow> 'c adminPeer list" where
  "makeAdminPeers_loop env [] servicePeers seenAddr = servicePeers"
| "makeAdminPeers_loop env (ep # eps) servicePeers seenAddr =
     (if Host ep = []
      then makeAdminPeers_loop env eps servicePeers seenAddr
      else if \<not> seenAddr (Host ep)
      then (let cfg = \<lparr>accessKey = AccessKey (serverCredential env),
                       secretKey = SecretKey (serverCredential env),
                       serverAddr = Host ep,
                       secureConn = isSSL env,
                       serviceEndpoint = adminServiceEndpoint env,
                       serviceName = ''Admin''\<rparr>
            in makeAdminPeers_loop env eps
                 (servicePeers @
                    [\<lparr>addr = Host ep, cmdRunner = remoteAdminClient (newAuthRPCClient env cfg)\<rparr>])
                 (seenAddr(Host ep := True)))
      else makeAdminPeers_loop env eps servicePeers seenAddr)"

definition makeAdminPeers :: "'c adminEnv \<Rightarrow> URL list \<Rightarrow> 'c adminPeer list" where
  "makeAdminPeers env eps =
     makeAdminPeers_loop env eps
       [\<lparr>addr = globalMinioAddr env, cmdRunner = localAdminClient\<rparr>]
       ((\<lambda>_. False)(globalMinioAddr env := True))"

text \<open>
  What the registry is compared with: the hosts of a list in the order of their first
  occurrence, and the remote peer built for a host.
\<close>

fun firstOccurrences :: "string list \<Rightarrow> string list" where
  "firstOccurrences [] = []"
| "firstOccurrences (h # hs) = h # firstOccurrences (filter (\<lambda>x. x \<noteq> h) hs)"

definition remotePeerFor :: "'c adminEnv \<Rightarrow> string \<Rightarrow> 'c adminPeer" where
  "remotePeerFor env h =
     \<lparr>addr = h,
      cmdRunner = remoteAdminClient (newAuthRPCClient env
        \<lparr>accessKey = AccessKey (serverCredential env),
         secretKey = SecretKey (serverCredential env),
         serverAddr = h,
         secureConn = isSSL env,
         serviceEndpoint = adminServiceEndpoint env,
         serviceName = ''Admin''\<rparr>)\<rparr>"

subsection \<open>The command runners\<close>

text \<open>
  What a peer's runner meets when it runs: the local node's clock and lock table,
  the outcome of an RPC call on a client (\<open>rc.Call\<close>, used at two types: for
  \<open>Admin.Shutdown\<close> and \<open>Admin.Restart\<close> only the call's error matters, for
  \<open>Admin.ListLocks\<close> the error or the reply's \<open>volLocks\<close>), and the order in which
  \<open>range\<close> yields the entries of a map. Every choice of these fields is one
  combination of outcomes of the peers.
\<close>

record 'c world =
  clock :: Time
  nsMutex :: nsLockMap
  rpcService :: "'c \<Rightarrow> string \<Rightarrow> error option"
  rpcListLocks :: "'c \<Rightarrow> string \<Rightarrow> string \<Rightarrow> Duration \<Rightarrow> error + VolumeLockInfo list"
  mapOrder :: "(nsParam \<times> VolumeLockInfo list) list \<Rightarrow> (nsParam \<times> VolumeLockInfo list) list"

text \<open>
  \<open>serviceSignal\<close> is declared outside the three files; \<open>invokeServiceCmd\<close> names
  two of its values and has no default case, \<open>serviceOther\<close> stands for every other
  value. The signals sent on \<open>globalServiceSignalCh\<close> are kept as a list.
\<close>

datatype serviceSignal = serviceStop | serviceRestart | serviceOther

fun Stop :: "'c world \<Rightarrow> 'c adminCmdRunner \<Rightarrow> serviceSignal list \<Rightarrow> error option \<times> serviceSignal list" where
  "Stop w localAdminClient ch = (None, ch @ [serviceStop])"
| "Stop w (remoteAdminClient rc) ch = (rpcService w rc ''Admin.Shutdown'', ch)"

fun Restart :: "'c world \<Rightarrow> 'c adminCmdRunner \<Rightarrow> serviceSignal list \<Rightarrow> error option \<times> serviceSignal list" where
  "Restart w localAdminClient ch = (None, ch @ [serviceRestart])"
| "Restart w (remoteAdminClient rc) ch = (rpcService w rc ''Admin.Restart'', ch)"

fun ListLocks ::
  "'c world \<Rightarrow> 'c adminCmdRunner \<Rightarrow> string \<Rightarrow> string \<Rightarrow> Duration \<Rightarrow>
   VolumeLockInfo list \<times> error option" where
  "ListLocks w localAdminClient bucket pfx relTime =
     (listLocksInfo (clock w) (nsMutex w) bucket pfx relTime, None)"
| "ListLocks w (remoteAdminClient rc) bucket pfx relTime =
     (case rpcListLocks w rc bucket pfx relTime of
        Inl err \<Rightarrow> ([], Some err)
      | Inr volLocks \<Rightarrow> (volLocks, None))"

subsection \<open>sendServiceCmd\<close>

fun invokeServiceCmd ::
  "'c world \<Rightarrow> 'c adminPeer \<Rightarrow> serviceSignal \<Rightarrow> serviceSignal list \<Rightarrow>
   error option \<times> serviceSignal list" where
  "invokeServiceCmd w cp serviceStop ch = Stop w (cmdRunner cp) ch"
| "invokeServiceCmd w cp serviceRestart ch = Restart w (cmdRunner cp) ch"
| "invokeServiceCmd w cp serviceOther ch = (None, ch)"

text \<open>
  The goroutines of \<open>sendServiceCmd\<close> write to slots of \<open>errs\<close> that differ and are
  joined by \<open>wg.Wait()\<close> before the local peer runs; the model runs them in the order
  of the list. Goroutine \<open>idx\<close> writes slot \<open>idx + 1\<close>.
\<close>

fun sendRemotePeers ::
  "'c world \<Rightarrow> 'c adminPeer list \<Rightarrow> serviceSignal \<Rightarrow> nat \<Rightarrow> error option list \<Rightarrow>
   serviceSignal list \<Rightarrow> error option list \<times> serviceSignal list" where
  "sendRemotePeers w [] cmd idx errs ch = (errs, ch)"
| "sendRemotePeers w (remotePeer # rest) cmd idx errs ch =
     (let (err, ch) = invokeServiceCmd w remotePeer cmd ch
      in sendRemotePeers w rest cmd (idx + 1) (errs[idx + 1 := err]) ch)"

text \<open>
  The body of \<open>sendServiceCmd\<close>, with the value \<open>errs\<close> has when the function ends
  and the signals sent by then. \<open>cps[1:]\<close> panics on an empty slice.
\<close>

definition sendServiceCmd_body ::
  "'c world \<Rightarrow> 'c adminPeer list \<Rightarrow> serviceSignal \<Rightarrow> serviceSignal list \<Rightarrow>
   (error option list \<times> serviceSignal list) go" where
  "sendServiceCmd_body w cps cmd ch =
     (case cps of
        [] \<Rightarrow> Panics
      | cp0 # remotePeers \<Rightarrow>
          (let errs = replicate (length cps) None;
               (errs, ch) = sendRemotePeers w remotePeers cmd 0 errs ch;
               (err, ch) = invokeServiceCmd w cp0 cmd ch;
               errs = errs[0 := err]
           in Returns (errs, ch)))"

text \<open>
  \<open>sendServiceCmd\<close> has no result and \<open>errs\<close> is local to it: its caller sees the
  signals sent, or the panic.
\<close>

definition sendServiceCmd ::
  "'c world \<Rightarrow> 'c adminPeer list \<Rightarrow> serviceSignal \<Rightarrow> serviceSignal list \<Rightarrow> serviceSignal list go" where
  "sendServiceCmd w cps cmd ch =
     (case sendServiceCmd_body w cps cmd ch of
        Panics \<Rightarrow> Panics
      | Returns (errs, ch) \<Rightarrow> Returns ch)"

subsection \<open>listPeerLocksInfo\<close>

text \<open>
  Modelled from the spec: \<open>reduceErrs\<close> is not in the three files. The spec has it
  find the error value occurring most frequently among the non-nil errors that are
  not to be ignored, and its occurrence count; with no such error the count is 0 and
  the error nil. Where several values occur most often the first of them is taken.
\<close>

fun mostFrequent :: "error list \<Rightarrow> error list \<Rightarrow> nat \<times> error option \<Rightarrow> nat \<times> error option" where
  "mostFrequent counted [] best = best"
| "mostFrequent counted (e # es) (maxCount, maxErr) =
     (if maxCount < count_list counted e
      then mostFrequent counted es (count_list counted e, Some e)
      else mostFrequent counted es (maxCount, maxErr))"

definition countedErrs :: "error option list \<Rightarrow> error list \<Rightarrow> error list" where
  "countedErrs errs ignoredErrs =
     concat (map (\<lambda>x. case x of None \<Rightarrow> []
                             | Some e \<Rightarrow> if e \<in> set ignoredErrs then [] else [e]) errs)"

definition reduceErrs :: "error option list \<Rightarrow> error list \<Rightarrow> nat \<times> error option" where
  "reduceErrs errs ignoredErrs =
     mostFrequent (countedErrs errs ignoredErrs) (countedErrs errs ignoredErrs) (0, None)"

text \<open>
  The fan-out of \<open>listPeerLocksInfo\<close>: goroutine \<open>idx\<close> (from 1) writes slot
  \<open>idx\<close> of \<open>allLocks\<close> and of \<open>errs\<close>; the local peer fills slot 0 after
  \<open>wg.Wait()\<close>. \<open>peers[0]\<close> panics on an empty slice.
\<close>

fun listRemotePeers ::
  "'c world \<Rightarrow> 'c adminPeer list \<Rightarrow> string \<Rightarrow> string \<Rightarrow> Duration \<Rightarrow> nat \<Rightarrow>
   VolumeLockInfo list list \<Rightarrow> error option list \<Rightarrow>
   VolumeLockInfo list list \<times> error option list" where
  "listRemotePeers w [] bucket pfx relTime idx allLocks errs = (allLocks, errs)"
| "listRemotePeers w (remotePeer # rest) bucket pfx relTime idx allLocks errs =
     (let (locks, err) = ListLocks w (cmdRunner remotePeer) bucket pfx relTime
      in listRemotePeers w rest bucket pfx relTime (idx + 1)
           (allLocks[idx := locks]) (errs[idx := err]))"

definition gatherPeerLocks ::
  "'c world \<Rightarrow> 'c adminPeer list \<Rightarrow> string \<Rightarrow> string \<Rightarrow> Duration \<Rightarrow>
   (VolumeLockInfo list list \<times> error option list) go" where
  "gatherPeerLocks w peers bucket pfx relTime =
     (case peers of
        [] \<Rightarrow> Panics
      | localPeer # remotePeers \<Rightarrow>
          (let allLocks = replicate (length peers) [];
               errs = replicate (length peers) None;
               (allLocks, errs) =
                 listRemotePeers w remotePeers bucket pfx relTime 1 allLocks errs;
               (locks, err) = ListLocks w (cmdRunner localPeer) bucket pfx relTime
           in Returns (allLocks[0 := locks], errs[0 := err])))"

text \<open>
  The merge. \<open>paramLockMap\<close> is a Go map from \<open>nsParam\<close> to a slice: the list of
  its entries, each key once; \<open>paramLockMap[param] = append(paramLockMap[param],
  lockInfo)\<close> extends the slice of the key or adds the key.
\<close>

fun appendLock ::
  "nsParam \<Rightarrow> VolumeLockInfo \<Rightarrow> (nsParam \<times> VolumeLockInfo list) list \<Rightarrow>
   (nsParam \<times> VolumeLockInfo list) list" where
  "appendLock param lockInfo' [] = [(param, [lockInfo'])]"
| "appendLock param lockInfo' ((k, volLocks) # paramLockMap) =
     (if k = param then (k, volLocks @ [lockInfo']) # paramLockMap
      else (k, volLocks) # appendLock param lockInfo' paramLockMap)"

fun groupNodeLocks ::
  "VolumeLockInfo list \<Rightarrow> (nsParam \<times> VolumeLockInfo list) list \<Rightarrow>
   (nsParam \<times> VolumeLockInfo list) list" where
  "groupNodeLocks [] paramLockMap = paramLockMap"
| "groupNodeLocks (lockInfo' # nodeLocks) paramLockMap =
     groupNodeLocks nodeLocks
       (appendLock \<lparr>volume = Bucket lockInfo', path = Object lockInfo'\<rparr> lockInfo' paramLockMap)"

fun groupAllLocks ::
  "VolumeLockInfo list list \<Rightarrow> (nsParam \<times> VolumeLockInfo list) list \<Rightarrow>
   (nsParam \<times> VolumeLockInfo list) list" where
  "groupAllLocks [] paramLockMap = paramLockMap"
| "groupAllLocks (nodeLocks # allLocks) paramLockMap =
     groupAllLocks allLocks (groupNodeLocks nodeLocks paramLockMap)"

text \<open>The second loop appends the slice of every key, in the order \<open>range\<close> yields the keys.\<close>

definition mergePeerLocks :: "'c world \<Rightarrow> VolumeLockInfo list list \<Rightarrow> VolumeLockInfo list" where
  "mergePeerLocks w allLocks =
     (let paramLockMap = groupAllLocks allLocks []
      in concat (map snd (mapOrder w paramLockMap)))"

definition listPeerLocksInfo ::
  "'c world \<Rightarrow> 'c adminPeer list \<Rightarrow> string \<Rightarrow> string \<Rightarrow> Duration \<Rightarrow>
   (error + VolumeLockInfo list) go" where
  "listPeerLocksInfo w peers bucket pfx relTime =
     (case gatherPeerLocks w peers bucket pfx relTime of
        Panics \<Rightarrow> Panics
      | Returns (allLocks, errs) \<Rightarrow>
          (let (errCount, err) = reduceErrs errs []
           in case err of
                Some e \<Rightarrow>
                  if errCount \<ge> length peers div 2 + 1 then Returns (Inl e)
                  else Returns (Inl InsufficientReadQuorum)
              | None \<Rightarrow> Returns (Inr (mergePeerLocks w allLocks))))"

text \<open>
  The outcome of \<open>ListLocks\<close> on every peer of a list, and an example: three nodes,
  the client of node \<open>n2\<close> failing every call.
\<close>

definition peerOutcomes ::
  "'c world \<Rightarrow> 'c adminPeer list \<Rightarrow> string \<Rightarrow> string \<Rightarrow> Duration \<Rightarrow>
   (VolumeLockInfo list \<times> error option) list" where
  "peerOutcomes w peers bucket pfx relTime =
     map (\<lambda>p. ListLocks w (cmdRunner p) bucket pfx relTime) peers"

definition peerErrs ::
  "'c world \<Rightarrow> 'c adminPeer list \<Rightarrow> string \<Rightarrow> string \<Rightarrow> Duration \<Rightarrow> error option list" where
  "peerErrs w peers bucket pfx relTime = map snd (peerOutcomes w peers bucket pfx relTime)"

definition peerLocks ::
  "'c world \<Rightarrow> 'c adminPeer list \<Rightarrow> string \<Rightarrow> string \<Rightarrow> Duration \<Rightarrow> VolumeLockInfo list list" where
  "peerLocks w peers bucket pfx relTime = map fst (peerOutcomes w peers bucket pfx relTime)"

definition exampleRemoteLock :: VolumeLockInfo where
  "exampleRemoteLock =
     \<lparr>Bucket = ''b'', Object = ''o'', LocksOnObject = 1, LocksAcquiredOnObject = 1,
      TotalBlockedLocks' = 0,
      LockDetailsOnObject =
        [\<lparr>OperationID = ''op9'', LockSource = ''s9'', LockType = debugWLockStr,
          Status = runningStatus, Since = 40, Duration = 60\<rparr>]\<rparr>"

definition exampleWorld :: "string world" where
  "exampleWorld =
     \<lparr>clock = 100,
      nsMutex = exampleLockMap,
      rpcService = (\<lambda>rc method. if rc = ''n2'' then Some (otherError ''unreachable'') else None),
      rpcListLocks = (\<lambda>rc bucket pfx relTime.
         if rc = ''n2'' then Inl (otherError ''unreachable'') else Inr [exampleRemoteLock]),
      mapOrder = rev\<rparr>"

definition examplePeers :: "string adminPeer list" where
  "examplePeers =
     [\<lparr>addr = ''n1'', cmdRunner = localAdminClient\<rparr>,
      \<lparr>addr = ''n2'', cmdRunner = remoteAdminClient ''n2''\<rparr>,
      \<lparr>addr = ''n3'', cmdRunner = remoteAdminClient ''n3''\<rparr>]"

definition exampleEnv :: "string adminEnv" where
  "exampleEnv =
     \<lparr>globalMinioAddr = ''n1'',
      serverCredential = \<lparr>AccessKey = ''access'', SecretKey = ''secret''\<rparr>,
      isSSL = False,
      adminServiceEndpoint = ''/minio/admin'',
      newAuthRPCClient = serverAddr\<rparr>"

definition exampleLocalLock :: VolumeLockInfo where
  "exampleLocalLock =
     \<lparr>Bucket = ''c'', Object = ''p'', LocksOnObject = 1, LocksAcquiredOnObject = 0,
      TotalBlockedLocks' = 1,
      LockDetailsOnObject =
        [\<lparr>OperationID = ''op3'', LockSource = ''s3'', LockType = debugWLockStr,
          Status = blockedStatus, Since = 0, Duration = 100\<rparr>]\<rparr>"

definition exampleEndpoints :: "URL list" where
  "exampleEndpoints =
     [\<lparr>Host = ''n2''\<rparr>, \<lparr>Host = []\<rparr>, \<lparr>Host = ''n1''\<rparr>, \<lparr>Host = ''n3''\<rparr>, \<lparr>Host = ''n2''\<rparr>]"



section \<open>Multipart upload bookkeeping (cmd/fs-v1-multipart-common.go)\<close>

text \<open>
  \<open>pathJoin\<close>, \<open>fsStatFile\<close>, \<open>errorIf\<close> and the three path constants are declared
  outside the three files: they are fields of the environment, with \<open>fsPath\<close> of
  the receiver \<open>fs\<close>. \<open>fsStatFile\<close> gives an error or a file info \<open>'fi\<close>.
  \<open>errorIf\<close> logs an error with a message; the log is returned beside the result.
\<close>

record 'fi fsObjects =
  fsPath :: string
  pathJoin :: "string list \<Rightarrow> string"
  uploadsJSONFile :: string
  fsMetaJSONFile :: string
  minioMetaMultipartBucket :: string
  fsStatFile :: "string \<Rightarrow> error + 'fi"

definition isMultipartUpload ::
  "'fi fsObjects \<Rightarrow> string \<Rightarrow> string \<Rightarrow> bool \<times> (error \<times> string) list" where
  "isMultipartUpload fs bucket pfx =
     (let uploadsIDPath = pathJoin fs [fsPath fs, bucket, pfx, uploadsJSONFile fs]
      in case fsStatFile fs uploadsIDPath of
           Inl err \<Rightarrow>
             if err = errFileNotFound then (False, [])
             else (False, [(err, ''Unable to access uploads.json '' @ uploadsIDPath)])
         | Inr fi \<Rightarrow> (True, []))"

definition isUploadIDExists ::
  "'fi fsObjects \<Rightarrow> string \<Rightarrow> string \<Rightarrow> string \<Rightarrow> bool \<times> (error \<times> string) list" where
  "isUploadIDExists fs bucket object uploadID =
     (let uploadIDPath = pathJoin fs [bucket, object, uploadID]
      in case fsStatFile fs
                (pathJoin fs [fsPath fs, minioMetaMultipartBucket fs, uploadIDPath, fsMetaJSONFile fs]) of
           Inl err \<Rightarrow>
             if err = errFileNotFound then (False, [])
             else (False, [(err, ''Unable to access upload id '' @ uploadIDPath)])
         | Inr fi \<Rightarrow> (True, []))"

text \<open>
  The ledger type \<open>uploadsV1\<close> with its methods and \<open>fsDeleteFile\<close> are declared
  outside the three files. The ledger is a type parameter \<open>'u\<close>, the locked file
  \<open>rwlk\<close> a state \<open>'f\<close>, the rest of the disk a state \<open>'d\<close>, and the methods are
  parameters: \<open>ReadFrom\<close> gives an error or the ledger read from the locked file,
  \<open>WriteTo\<close> an error or nil and the file as it leaves it, \<open>fsDeleteFile\<close> an error
  or nil and the disk as it leaves it.
\<close>

record ('u, 'f, 'd) uploadsV1_methods =
  ReadFrom :: "'f \<Rightarrow> error + 'u"
  RemoveUploadID :: "string \<Rightarrow> 'u \<Rightarrow> 'u"
  IsEmpty :: "'u \<Rightarrow> bool"
  WriteTo :: "'u \<Rightarrow> 'f \<Rightarrow> error option \<times> 'f"
  fsDeleteFile :: "string \<Rightarrow> string \<Rightarrow> 'd \<Rightarrow> error option \<times> 'd"

text \<open>\<open>removeUploadID\<close> returns its error, the locked file and the disk as it leaves them.\<close>

definition removeUploadID ::
  "'fi fsObjects \<Rightarrow> ('u, 'f, 'd) uploadsV1_methods \<Rightarrow> string \<Rightarrow> string \<Rightarrow> string \<Rightarrow> 'f \<Rightarrow> 'd \<Rightarrow>
   error option \<times> 'f \<times> 'd" where
  "removeUploadID fs ops bucket object uploadID rwlk disk =
     (case ReadFrom ops rwlk of
        Inl err \<Rightarrow> (Some err, rwlk, disk)
      | Inr uploadIDs \<Rightarrow>
          (let uploadIDs = RemoveUploadID ops uploadID uploadIDs
           in if IsEmpty ops uploadIDs
              then (let uploadsPath = pathJoin fs [bucket, object, uploadsJSONFile fs];
                        multipartPathBucket = pathJoin fs [fsPath fs, minioMetaMultipartBucket fs];
                        uploadPathBucket = pathJoin fs [multipartPathBucket, uploadsPath];
                        (err, disk) = fsDeleteFile ops multipartPathBucket uploadPathBucket disk
                    in (err, rwlk, disk))
              else (let (err, rwlk) = WriteTo ops uploadIDs rwlk
                    in (err, rwlk, disk))))"

text \<open>
  An instance to run the functions on: paths joined with a slash, a disk that is the
  list of the paths of its files, a ledger that is the list of its upload ids and is
  stored as such in the locked file (\<open>None\<close>: the file cannot be read).
\<close>

fun slashJoin :: "string list \<Rightarrow> string" where
  "slashJoin [] = []"
| "slashJoin [p] = p"
| "slashJoin (p # ps) = p @ ''/'' @ slashJoin ps"

definition exampleFS :: "unit fsObjects" where
  "exampleFS =
     \<lparr>fsPath = ''/data'', pathJoin = slashJoin, uploadsJSONFile = ''uploads.json'',
      fsMetaJSONFile = ''fs.json'', minioMetaMultipartBucket = ''.minio.sys/multipart'',
      fsStatFile = (\<lambda>p. if p = ''/data/b/o/uploads.json'' then Inr ()
                         else if p = ''/data/b/locked/uploads.json'' then Inl (otherError ''permission denied'')
                         else Inl errFileNotFound)\<rparr>"

definition exampleLedger :: "(string list, string list option, string list) uploadsV1_methods" where
  "exampleLedger =
     \<lparr>ReadFrom = (\<lambda>f. case f of None \<Rightarrow> Inl (otherError ''unexpected end of JSON input'')
                             | Some ids \<Rightarrow> Inr ids),
      RemoveUploadID = remove1,
      IsEmpty = (\<lambda>ids. ids = []),
      WriteTo = (\<lambda>ids f. (None, Some ids)),
      fsDeleteFile = (\<lambda>base p disk. (None, removeAll p disk))\<rparr>"

section \<open>Properties of the lock snapshots\<close>

subsection \<open>The loops in closed form\<close>

lemma systemLockDetails_eq:
  "systemLockDetails timeNow recs v =
     v\<lparr>LockDetailsOnObject := LockDetailsOnObject v @ map (detailOf timeNow) recs\<rparr>"
  by (induction recs arbitrary: v) (auto simp: detailOf_def)

lemma systemLockLoop_eq:
  "systemLockLoop timeNow tbl st =
     st\<lparr>LocksInfoPerObject := LocksInfoPerObject st @
        map (\<lambda>e. entryOf (fst e) (snd e) (map (detailOf timeNow) (lockInfo (snd e)))) tbl\<rparr>"
  by (induction tbl arbitrary: st) (auto simp: systemLockDetails_eq entryOf_def Let_def)

lemma listLocksDetails_eq:
  "snd (listLocksDetails timeNow relTime recs v vs) =
     vs @ map (\<lambda>ds. v\<lparr>LockDetailsOnObject := LockDetailsOnObject v @ ds\<rparr>)
            (nonemptyPrefixes (oldEnough timeNow relTime recs))"
proof (induction recs arbitrary: v vs)
  case Nil
  then show ?case by (simp add: oldEnough_def)
next
  case (Cons rec recs)
  obtain opsID li where rec: "rec = (opsID, li)" by (cases rec)
  show ?case
  proof (cases "time_Sub timeNow (since li) < relTime")
    case True
    then show ?thesis using Cons.IH [of v vs] by (simp add: rec oldEnough_def)
  next
    case False
    then show ?thesis
      by (simp add: rec Cons.IH oldEnough_def detailOf_def Let_def comp_def)
  qed
qed

lemma listLocksLoop_eq:
  "listLocksLoop timeNow bucket pfx relTime tbl vs =
     vs @ concat (map (objectEntries timeNow bucket pfx relTime) tbl)"
proof (induction tbl arbitrary: vs)
  case Nil
  then show ?case by simp
next
  case (Cons e tbl)
  obtain param debugLock where e: "e = (param, debugLock)" by (cases e)
  show ?case
    by (simp add: e Cons.IH objectEntries_def listLocksDetails_eq entryOf_def)
qed

lemma nonemptyPrefixes_take:
  "nonemptyPrefixes xs = map (\<lambda>j. take (Suc j) xs) [0..<length xs]"
proof (induction xs)
  case Nil
  then show ?case by simp
next
  case (Cons x xs)
  have "[0..<length (x # xs)] = 0 # map Suc [0..<length xs]"
    by (simp add: upt_conv_Cons map_Suc_upt del: upt_Suc)
  then show ?case by (simp add: Cons.IH comp_def)
qed

lemma nonemptyPrefixes_subset:
  "ds \<in> set (nonemptyPrefixes xs) \<Longrightarrow> set ds \<subseteq> set xs"
  by (auto simp: nonemptyPrefixes_take dest: in_set_takeD)

lemma nonemptyPrefixes_whole:
  "xs \<noteq> [] \<Longrightarrow> xs \<in> set (nonemptyPrefixes xs)"
proof -
  assume "xs \<noteq> []"
  then have "length xs - 1 < length xs" and "take (Suc (length xs - 1)) xs = xs"
    by simp_all
  then show ?thesis
    unfolding nonemptyPrefixes_take set_map by (metis (lifting) atLeast0LessThan imageI lessThan_iff set_upt)
qed

lemma concat_map_single:
  "distinct (map fst tbl) \<Longrightarrow> (k, x) \<in> set tbl \<Longrightarrow>
   (\<And>e. e \<in> set tbl \<Longrightarrow> fst e \<noteq> k \<Longrightarrow> g e = []) \<Longrightarrow>
   concat (map g tbl) = g (k, x)"
proof (induction tbl)
  case Nil
  then show ?case by simp
next
  case (Cons e tbl)
  show ?case
  proof (cases "e = (k, x)")
    case True
    have "\<And>e'. e' \<in> set tbl \<Longrightarrow> g e' = []"
    proof -
      fix e' assume e': "e' \<in> set tbl"
      then have "fst e' \<in> fst ` set tbl" by simp
      then have "fst e' \<noteq> k" using Cons.prems(1) True by auto
      then show "g e' = []" using Cons.prems(3) e' by simp
    qed
    then have "concat (map g tbl) = []" by simp
    then show ?thesis using True by simp
  next
    case False
    then have in_tl: "(k, x) \<in> set tbl" using Cons.prems(2) by simp
    then have "k \<in> fst ` set tbl" by force
    then have "fst e \<noteq> k" using Cons.prems(1) by auto
    then have "g e = []" using Cons.prems(3) by simp
    moreover have "concat (map g tbl) = g (k, x)"
      using Cons.IH Cons.prems in_tl by simp
    ultimately show ?thesis by simp
  qed
qed

lemma nsParam_eq: "volume (p :: nsParam) = volume q \<Longrightarrow> path p = path q \<Longrightarrow> p = q"
  by simp

lemma filter_objectEntries:
  "filter (\<lambda>v. Bucket v = volume param \<and> Object v = path param)
     (objectEntries timeNow bucket pfx relTime e) =
   (if fst e = param then objectEntries timeNow bucket pfx relTime e else [])"
proof (cases "fst e = param")
  case True
  then show ?thesis by (simp add: objectEntries_def entryOf_def)
next
  case False
  then have "\<not> (volume (fst e) = volume param \<and> path (fst e) = path param)"
    using nsParam_eq by blast
  then show ?thesis by (auto simp: objectEntries_def entryOf_def filter_empty_conv)
qed

lemma detailOf_Since: "Since (detailOf timeNow rec) = since (snd rec)"
  by (simp add: detailOf_def)

lemma detailOf_oldEnough:
  "rec \<in> set recs \<Longrightarrow>
   detailOf timeNow rec \<in> set (oldEnough timeNow relTime recs) \<longleftrightarrow>
   relTime \<le> time_Sub timeNow (since (snd rec))"
proof
  assume "detailOf timeNow rec \<in> set (oldEnough timeNow relTime recs)"
  then obtain rec' where r: "relTime \<le> time_Sub timeNow (since (snd rec'))"
    and eq: "detailOf timeNow rec' = detailOf timeNow rec"
    by (auto simp: oldEnough_def)
  from eq have "since (snd rec') = since (snd rec)"
    by (metis detailOf_Since)
  with r show "relTime \<le> time_Sub timeNow (since (snd rec))" by simp
next
  assume "rec \<in> set recs" and "relTime \<le> time_Sub timeNow (since (snd rec))"
  then show "detailOf timeNow rec \<in> set (oldEnough timeNow relTime recs)"
    by (auto simp: oldEnough_def)
qed

lemma set_listLocksInfo:
  "v \<in> set (listLocksInfo timeNow m bucket pfx relTime) \<longleftrightarrow>
   (\<exists>e \<in> set (debugLockMap m). volume (fst e) = bucket \<and> prefix pfx (path (fst e)) \<and>
      (\<exists>ds \<in> set (nonemptyPrefixes (oldEnough timeNow relTime (lockInfo (snd e)))).
         v = entryOf (fst e) (snd e) ds))"
  by (auto simp: listLocksInfo_def listLocksLoop_eq objectEntries_def split: if_splits)

lemma time_Sub_nonneg: "0 \<le> time_Sub t u \<longleftrightarrow> u \<le> t"
  by (auto simp: time_Sub_def minDuration_def maxDuration_def Let_def)

lemma systemLock_details:
  "r \<in> set (allDetails (LocksInfoPerObject (fst (getSystemLockState timeNow m)))) \<Longrightarrow>
   Duration r = time_Sub timeNow (Since r)"
  by (auto simp: allDetails_def getSystemLockState_def systemLockLoop_eq entryOf_def detailOf_def)

lemma listLocks_details:
  "r \<in> set (allDetails (listLocksInfo timeNow m bucket pfx relTime)) \<Longrightarrow>
   Duration r = time_Sub timeNow (Since r)"
proof -
  assume "r \<in> set (allDetails (listLocksInfo timeNow m bucket pfx relTime))"
  then obtain v where v: "v \<in> set (listLocksInfo timeNow m bucket pfx relTime)"
    and r: "r \<in> set (LockDetailsOnObject v)"
    by (auto simp: allDetails_def)
  from v obtain e ds where
    ds: "ds \<in> set (nonemptyPrefixes (oldEnough timeNow relTime (lockInfo (snd e))))"
    and "v = entryOf (fst e) (snd e) ds"
    unfolding set_listLocksInfo by blast
  with r have "r \<in> set ds" by (simp add: entryOf_def)
  with ds have "r \<in> set (oldEnough timeNow relTime (lockInfo (snd e)))"
    using nonemptyPrefixes_subset by blast
  then show ?thesis by (auto simp: oldEnough_def detailOf_def)
qed

lemma fits_Add: "fitsDuration timeNow r \<Longrightarrow> Duration r = time_Sub timeNow (Since r) \<Longrightarrow>
  sincePlusDuration r = timeNow"
  by (simp add: fitsDuration_def sincePlusDuration_def time_Sub_def time_Add_def Let_def)

lemmas lock_eval = listLocksInfo_def getSystemLockState_def exampleLockMap_def
  exampleObject_def time_Sub_def time_Add_def minDuration_def maxDuration_def Let_def
  allDetails_def entryOf_def detailOf_def oldEnough_def fitsDuration_def sincePlusDuration_def

subsection \<open>One entry per matching operation record\<close>

text \<open>
  What \<open>listLocksInfo\<close> returns for one object, on every lock table (the keys of the
  table distinct, as in a Go map): an object that passes the bucket and prefix tests
  and has \<open>k\<close> operation records that are old enough gets \<open>k\<close> entries, and entry
  number \<open>j\<close> (from 0) holds the details of the first \<open>j + 1\<close> of these records.
  The details pile up from one entry of the object to the next.
\<close>

lemma listLocksInfo_entries_per_record:
  assumes "distinct (map fst (debugLockMap m))"
    and "(param, debugLock) \<in> set (debugLockMap m)"
    and "volume param = bucket" and "prefix pfx (path param)"
  shows "filter (\<lambda>v. Bucket v = volume param \<and> Object v = path param)
           (listLocksInfo timeNow m bucket pfx relTime) =
         map (\<lambda>j. entryOf param debugLock
                     (take (Suc j) (oldEnough timeNow relTime (lockInfo debugLock))))
           [0..<length (oldEnough timeNow relTime (lockInfo debugLock))]"
proof -
  let ?P = "\<lambda>v. Bucket v = volume param \<and> Object v = path param"
  let ?g = "\<lambda>e. filter ?P (objectEntries timeNow bucket pfx relTime e)"
  have "filter ?P (listLocksInfo timeNow m bucket pfx relTime) =
        concat (map ?g (debugLockMap m))"
    by (simp add: listLocksInfo_def listLocksLoop_eq filter_concat comp_def)
  also have "\<dots> = ?g (param, debugLock)"
    using assms(1,2) by (rule concat_map_single) (simp add: filter_objectEntries)
  also have "\<dots> = objectEntries timeNow bucket pfx relTime (param, debugLock)"
    by (simp add: filter_objectEntries)
  also have "\<dots> = map (entryOf param debugLock)
                      (nonemptyPrefixes (oldEnough timeNow relTime (lockInfo debugLock)))"
    using assms(3,4) by (simp add: objectEntries_def)
  finally show ?thesis by (simp add: nonemptyPrefixes_take comp_def)
qed

text \<open>
  C2: the claim has each entry carry the object's counters and the detail record of
  exactly one operation. \<open>listLocksInfo\<close> does not do so. In the example table two
  operations hold object \<open>o\<close> of bucket \<open>b\<close>: the first entry returned for the
  object holds the detail of \<open>op1\<close>, the second the details of \<open>op1\<close> and of
  \<open>op2\<close>. On the same table \<open>getSystemLockState\<close>, which appends an entry once
  the details of its object are read, returns one entry for the object with both
  details.
\<close>

theorem listLocksInfo_details_accumulate:
  "map (map OperationID \<circ> LockDetailsOnObject) (listLocksInfo 100 exampleLockMap ''b'' [] 0) =
     [[''op1''], [''op1'', ''op2'']] \<and>
   map (map OperationID \<circ> LockDetailsOnObject)
     (LocksInfoPerObject (fst (getSystemLockState 100 exampleLockMap))) =
     [[''op1'', ''op2''], [''op3'']]"
  by (simp add: lock_eval)

subsection \<open>Which records are listed\<close>

text \<open>
  C4, as the claim states it, fails in its last part: at instant 15 the record
  \<open>op2\<close> of bucket \<open>b\<close>, whose \<open>since\<close> is 20, has a negative elapsed time and is
  left out when \<open>listLocksInfo\<close> is asked for bucket \<open>b\<close> with the empty
  prefix and \<open>relTime\<close> 0.
\<close>

theorem listLocksInfo_every_record_counterexample:
  "map OperationID (allDetails (listLocksInfo 15 exampleLockMap ''b'' [] 0)) = [''op1'']"
  by (simp add: lock_eval)

text \<open>
  C4, amended: for every lock table, bucket, prefix and \<open>relTime\<close>, an operation
  record of a table entry is listed (its detail stands in an entry of the result for
  that object) exactly when the entry's volume is the bucket, its path starts with
  the prefix, and the elapsed time \<open>timeNow.Sub(since)\<close> is at least \<open>relTime\<close>;
  in particular, with the empty prefix and \<open>relTime\<close> 0, every record of the bucket
  whose \<open>since\<close> is not later than \<open>timeNow\<close> is listed.
\<close>

theorem listLocksInfo_filter:
  assumes "(param, debugLock) \<in> set (debugLockMap m)" and "rec \<in> set (lockInfo debugLock)"
  shows "((\<exists>v \<in> set (listLocksInfo timeNow m bucket pfx relTime).
             Bucket v = volume param \<and> Object v = path param \<and>
             detailOf timeNow rec \<in> set (LockDetailsOnObject v)) \<longleftrightarrow>
          volume param = bucket \<and> prefix pfx (path param) \<and>
          relTime \<le> time_Sub timeNow (since (snd rec))) \<and>
         (volume param = bucket \<and> since (snd rec) \<le> timeNow \<longrightarrow>
          (\<exists>v \<in> set (listLocksInfo timeNow m bucket [] 0).
             Bucket v = volume param \<and> Object v = path param \<and>
             detailOf timeNow rec \<in> set (LockDetailsOnObject v)))"
proof -
  have iff: "(\<exists>v \<in> set (listLocksInfo timeNow m b p r).
             Bucket v = volume param \<and> Object v = path param \<and>
             detailOf timeNow rec \<in> set (LockDetailsOnObject v)) \<longleftrightarrow>
          volume param = b \<and> prefix p (path param) \<and>
          r \<le> time_Sub timeNow (since (snd rec))" (is "?L \<longleftrightarrow> ?R") for b p r
  proof
    assume ?L
    then obtain v0 where v0: "v0 \<in> set (listLocksInfo timeNow m b p r)"
      "Bucket v0 = volume param" "Object v0 = path param"
      "detailOf timeNow rec \<in> set (LockDetailsOnObject v0)"
      by blast
    from v0(1) obtain e ds where e: "e \<in> set (debugLockMap m)" "volume (fst e) = b"
        "prefix p (path (fst e))"
      and ds: "ds \<in> set (nonemptyPrefixes (oldEnough timeNow r (lockInfo (snd e))))"
      and v0_eq: "v0 = entryOf (fst e) (snd e) ds"
      unfolding set_listLocksInfo by blast
    have v: "Bucket (entryOf (fst e) (snd e) ds) = volume param"
        "Object (entryOf (fst e) (snd e) ds) = path param"
        "detailOf timeNow rec \<in> set (LockDetailsOnObject (entryOf (fst e) (snd e) ds))"
      using v0(2,3,4) v0_eq by simp_all
    from v(1,2) have key: "volume (fst e) = volume param" "path (fst e) = path param"
      by (simp_all add: entryOf_def)
    from v(3) have "detailOf timeNow rec \<in> set ds" by (simp add: entryOf_def)
    with ds have "detailOf timeNow rec \<in> set (oldEnough timeNow r (lockInfo (snd e)))"
      using nonemptyPrefixes_subset by blast
    then obtain rec' where r': "r \<le> time_Sub timeNow (since (snd rec'))"
      and eq: "detailOf timeNow rec' = detailOf timeNow rec"
      by (auto simp: oldEnough_def)
    from eq have "since (snd rec') = since (snd rec)" by (metis detailOf_Since)
    with r' e key show ?R by simp
  next
    assume R: ?R
    let ?ms = "oldEnough timeNow r (lockInfo debugLock)"
    have d: "detailOf timeNow rec \<in> set ?ms"
      using R assms(2) by (simp add: detailOf_oldEnough)
    then have "?ms \<noteq> []" by auto
    then have "?ms \<in> set (nonemptyPrefixes ?ms)" by (rule nonemptyPrefixes_whole)
    then have "entryOf param debugLock ?ms \<in> set (listLocksInfo timeNow m b p r)"
      using assms(1) R by (subst set_listLocksInfo) force
    moreover have "Bucket (entryOf param debugLock ?ms) = volume param"
      "Object (entryOf param debugLock ?ms) = path param"
      "LockDetailsOnObject (entryOf param debugLock ?ms) = ?ms"
      by (simp_all add: entryOf_def)
    ultimately show ?L using d by metis
  qed
  have "prefix [] (path param)" by simp
  then have "volume param = bucket \<and> since (snd rec) \<le> timeNow \<longrightarrow>
          (\<exists>v \<in> set (listLocksInfo timeNow m bucket [] 0).
             Bucket v = volume param \<and> Object v = path param \<and>
             detailOf timeNow rec \<in> set (LockDetailsOnObject v))"
    using iff [of bucket "[]" 0] time_Sub_nonneg [of timeNow "since (snd rec)"] by blast
  then show ?thesis using iff [of bucket pfx relTime] by blast
qed

theorem listLocksInfo_filter_witness:
  "(\<lparr>volume = ''b'', path = ''o''\<rparr>, exampleObject) \<in> set (debugLockMap exampleLockMap) \<and>
   (''op1'', \<lparr>lockSource = ''s1'', lType = debugRLockStr, status = runningStatus, since = 10\<rparr>)
     \<in> set (lockInfo exampleObject) \<and>
   prefix ''o'' (path \<lparr>volume = ''b'', path = ''o''\<rparr>) \<and>
   (50 :: int) \<le> time_Sub 100 10 \<and>
   (\<exists>v \<in> set (listLocksInfo 100 exampleLockMap ''b'' ''o'' 50).
        Bucket v = ''b'' \<and> Object v = ''o'' \<and>
        \<lparr>OperationID = ''op1'', LockSource = ''s1'', LockType = debugRLockStr,
         Status = runningStatus, Since = 10, Duration = 90\<rparr> \<in> set (LockDetailsOnObject v)) \<and>
   (\<exists>v \<in> set (listLocksInfo 100 exampleLockMap ''b'' [] 0).
        Bucket v = ''b'' \<and> Object v = ''o'' \<and>
        \<lparr>OperationID = ''op1'', LockSource = ''s1'', LockType = debugRLockStr,
         Status = runningStatus, Since = 10, Duration = 90\<rparr> \<in> set (LockDetailsOnObject v))"
proof -
  let ?p = "\<lparr>volume = ''b'', path = ''o''\<rparr>"
  let ?r = "(''op1'', \<lparr>lockSource = ''s1'', lType = debugRLockStr,
                       status = runningStatus, since = 10\<rparr>)"
  have h1: "(?p, exampleObject) \<in> set (debugLockMap exampleLockMap)"
    by (simp add: exampleLockMap_def)
  have h2: "?r \<in> set (lockInfo exampleObject)"
    by (simp add: exampleObject_def)
  have h3: "prefix ''o'' (path ?p)" by simp
  have h4: "(50 :: int) \<le> time_Sub 100 10"
    by (simp add: time_Sub_def minDuration_def maxDuration_def)
  have d: "detailOf 100 ?r =
    \<lparr>OperationID = ''op1'', LockSource = ''s1'', LockType = debugRLockStr,
     Status = runningStatus, Since = 10, Duration = 90\<rparr>"
    by (simp add: detailOf_def time_Sub_def minDuration_def maxDuration_def)
  show ?thesis
    using listLocksInfo_filter [OF h1 h2, of 100 "''b''" "''o''" 50] h1 h2 h3 h4 d
    by simp
qed

subsection \<open>One timestamp for every duration\<close>

text \<open>
  C7, as the claim states it, fails: \<open>Time.Sub\<close> stops at the largest Duration. At
  an instant \<open>2 ^ 63 + 9\<close> nanoseconds after the zero instant, the records with
  \<open>since\<close> 10 and 20 get their true age and the record with the zero \<open>since\<close>
  gets the largest Duration, so \<open>Since + Duration\<close> is not the same for all.
\<close>

theorem durations_share_one_timestamp_counterexample:
  "map sincePlusDuration
     (allDetails (LocksInfoPerObject (fst (getSystemLockState 9223372036854775817 exampleLockMap)))) =
     [9223372036854775817, 9223372036854775817, 9223372036854775807]"
  by (simp add: lock_eval)

text \<open>
  C7, amended: within one call of \<open>getSystemLockState\<close>, and within one call of
  \<open>listLocksInfo\<close>, the Duration of every emitted operation record is
  \<open>timeNow.Sub(Since)\<close> for the one \<open>timeNow\<close> of the call; hence for all records
  \<open>i\<close> and \<open>j\<close> of the call's output whose age a Duration can hold,
  \<open>Since i + Duration i = Since j + Duration j\<close>.
\<close>

theorem durations_share_one_timestamp:
  "\<forall>out \<in> {LocksInfoPerObject (fst (getSystemLockState timeNow m)),
            listLocksInfo timeNow m bucket pfx relTime}.
     \<forall>ri \<in> set (allDetails out). \<forall>rj \<in> set (allDetails out).
       Duration ri = time_Sub timeNow (Since ri) \<and>
       (fitsDuration timeNow ri \<and> fitsDuration timeNow rj \<longrightarrow>
        sincePlusDuration ri = sincePlusDuration rj)"
  using systemLock_details listLocks_details fits_Add by auto

theorem durations_share_one_timestamp_witness:
  "map (\<lambda>r. (Duration r, fitsDuration 100 r, sincePlusDuration r))
     (allDetails (LocksInfoPerObject (fst (getSystemLockState 100 exampleLockMap)))) =
     [(90, True, 100), (80, True, 100), (100, True, 100)] \<and>
   map (\<lambda>r. (Duration r, fitsDuration 100 r, sincePlusDuration r))
     (allDetails (listLocksInfo 100 exampleLockMap ''b'' [] 85)) = [(90, True, 100)]"
  using durations_share_one_timestamp [of 100 exampleLockMap "''b''" "[]" 85]
  by (simp add: lock_eval)

subsection \<open>The three running counters\<close>

text \<open>
  C8: \<open>getSystemLockState\<close> copies the three running counters of the lock table
  into \<open>TotalLocks\<close>, \<open>TotalAcquiredLocks\<close> and \<open>TotalBlockedLocks\<close> (and returns
  no error); it does not write to the table, so a second call on the same table, at
  whatever instant, returns the same three counters.
\<close>

theorem getSystemLockState_counters:
  "TotalLocks (fst (getSystemLockState timeNow m)) = total (counters' m) \<and>
   TotalAcquiredLocks (fst (getSystemLockState timeNow m)) = granted (counters' m) \<and>
   TotalBlockedLocks (fst (getSystemLockState timeNow m)) = blocked (counters' m) \<and>
   snd (getSystemLockState timeNow m) = None \<and>
   TotalLocks (fst (getSystemLockState timeNow' m)) = TotalLocks (fst (getSystemLockState timeNow m)) \<and>
   TotalAcquiredLocks (fst (getSystemLockState timeNow' m)) =
     TotalAcquiredLocks (fst (getSystemLockState timeNow m)) \<and>
   TotalBlockedLocks (fst (getSystemLockState timeNow' m)) =
     TotalBlockedLocks (fst (getSystemLockState timeNow m))"
  by (simp add: getSystemLockState_def systemLockLoop_eq)

section \<open>Properties of the admin peers\<close>

subsection \<open>The registry built by makeAdminPeers\<close>

lemma set_firstOccurrences: "set (firstOccurrences hs) = set hs"
  by (induction hs rule: firstOccurrences.induct) auto

lemma distinct_firstOccurrences: "distinct (firstOccurrences hs)"
  by (induction hs rule: firstOccurrences.induct) (auto simp: set_firstOccurrences)

lemma makeAdminPeers_loop_eq:
  "makeAdminPeers_loop env eps servicePeers seenAddr =
     servicePeers @ map (remotePeerFor env)
       (firstOccurrences (filter (\<lambda>h. h \<noteq> [] \<and> \<not> seenAddr h) (map Host eps)))"
proof (induction eps arbitrary: servicePeers seenAddr)
  case Nil
  then show ?case by simp
next
  case (Cons ep eps)
  show ?case
  proof (cases "Host ep \<noteq> [] \<and> \<not> seenAddr (Host ep)")
    case True
    have "filter (\<lambda>x. x \<noteq> Host ep) (filter (\<lambda>h. h \<noteq> [] \<and> \<not> seenAddr h) (map Host eps)) =
          filter (\<lambda>h. h \<noteq> [] \<and> \<not> (seenAddr(Host ep := True)) h) (map Host eps)"
      by (auto intro: filter_cong)
    then show ?thesis using True
      by (simp add: Cons.IH remotePeerFor_def Let_def)
  next
    case False
    then show ?thesis by (auto simp: Cons.IH)
  qed
qed

lemma makeAdminPeers_eq:
  "makeAdminPeers env eps =
     \<lparr>addr = globalMinioAddr env, cmdRunner = localAdminClient\<rparr> #
     map (remotePeerFor env)
       (firstOccurrences (filter (\<lambda>h. h \<noteq> [] \<and> h \<noteq> globalMinioAddr env) (map Host eps)))"
proof -
  have "(\<lambda>h. h \<noteq> [] \<and> \<not> ((\<lambda>_. False)(globalMinioAddr env := True)) h) =
        (\<lambda>h. h \<noteq> [] \<and> h \<noteq> globalMinioAddr env)"
    by auto
  then show ?thesis
    by (simp only: makeAdminPeers_def makeAdminPeers_loop_eq append_Cons append_Nil)
qed

lemma addr_remotePeerFor: "addr (remotePeerFor env h) = h"
  by (simp add: remotePeerFor_def)

lemma map_addr_remotePeerFor: "map (addr \<circ> remotePeerFor env) hs = hs"
  by (induction hs) (simp_all add: addr_remotePeerFor)


lemma count_list_distinct: "distinct xs \<Longrightarrow> x \<in> set xs \<Longrightarrow> count_list xs x = 1"
  by (induction xs) auto

text \<open>
  C3: for every endpoint list, the registry \<open>makeAdminPeers\<close> returns has the local
  peer, bound to the local runner, at position 0; its addresses are the local address
  followed by the non-empty hosts other than the local address, each once, in the
  order of their first occurrence (entries with an empty host are skipped, later
  duplicates dropped); so every non-empty host of the list appears exactly once, and
  every peer after position 0 is the remote peer of its host and does not have the
  local address.
\<close>

theorem makeAdminPeers_registry:
  "makeAdminPeers env eps ! 0 = \<lparr>addr = globalMinioAddr env, cmdRunner = localAdminClient\<rparr> \<and>
   map addr (makeAdminPeers env eps) =
     globalMinioAddr env #
     firstOccurrences (filter (\<lambda>h. h \<noteq> [] \<and> h \<noteq> globalMinioAddr env) (map Host eps)) \<and>
   distinct (map addr (makeAdminPeers env eps)) \<and>
   (\<forall>ep \<in> set eps. Host ep \<noteq> [] \<longrightarrow>
      count_list (map addr (makeAdminPeers env eps)) (Host ep) = 1) \<and>
   (\<forall>p \<in> set (tl (makeAdminPeers env eps)).
      addr p \<noteq> globalMinioAddr env \<and> addr p \<noteq> [] \<and> addr p \<in> Host ` set eps \<and>
      p = remotePeerFor env (addr p))"
proof -
  let ?hs = "firstOccurrences (filter (\<lambda>h. h \<noteq> [] \<and> h \<noteq> globalMinioAddr env) (map Host eps))"
  have addrs: "map addr (makeAdminPeers env eps) = globalMinioAddr env # ?hs"
    by (simp add: makeAdminPeers_eq map_addr_remotePeerFor)
  have set_hs: "set ?hs = {h \<in> Host ` set eps. h \<noteq> [] \<and> h \<noteq> globalMinioAddr env}"
    by (auto simp: set_firstOccurrences)
  have dist: "distinct (globalMinioAddr env # ?hs)"
    using set_hs by (simp add: distinct_firstOccurrences)
  have cnt: "count_list (globalMinioAddr env # ?hs) (Host ep) = 1"
    if "ep \<in> set eps" "Host ep \<noteq> []" for ep
  proof -
    have "Host ep \<in> set (globalMinioAddr env # ?hs)" using that set_hs by auto
    with dist show ?thesis by (rule count_list_distinct)
  qed
  have rem: "addr p \<noteq> globalMinioAddr env \<and> addr p \<noteq> [] \<and> addr p \<in> Host ` set eps \<and>
      p = remotePeerFor env (addr p)"
    if "p \<in> set (tl (makeAdminPeers env eps))" for p
  proof -
    from that obtain h where h: "h \<in> set ?hs" and p: "p = remotePeerFor env h"
      by (auto simp: makeAdminPeers_eq)
    from p have "addr p = h" by (simp add: addr_remotePeerFor)
    with h p set_hs show ?thesis by auto
  qed
  have first: "makeAdminPeers env eps ! 0 =
      \<lparr>addr = globalMinioAddr env, cmdRunner = localAdminClient\<rparr>"
    by (simp add: makeAdminPeers_eq)
  show ?thesis using first addrs dist cnt rem by (simp del: count_list.simps)
qed

theorem makeAdminPeers_registry_witness:
  "makeAdminPeers exampleEnv exampleEndpoints = examplePeers \<and>
   map addr examplePeers = [''n1'', ''n2'', ''n3''] \<and>
   count_list (map addr examplePeers) ''n2'' = 1 \<and>
   count_list (map addr examplePeers) ''n1'' = 1"
  using makeAdminPeers_registry [of exampleEnv exampleEndpoints]
  by (simp add: makeAdminPeers_def remotePeerFor_def exampleEnv_def examplePeers_def
      exampleEndpoints_def)

subsection \<open>sendServiceCmd\<close>

lemma invokeServiceCmd_err:
  "fst (invokeServiceCmd w cp cmd ch) = fst (invokeServiceCmd w cp cmd [])"
  by (cases cmd; cases "cmdRunner cp") simp_all

lemma invokeServiceCmd_signals:
  "snd (invokeServiceCmd w cp cmd ch) = snd (invokeServiceCmd w' cp cmd ch)"
  by (cases cmd; cases "cmdRunner cp") simp_all

lemma sendRemotePeers_signals:
  "snd (sendRemotePeers w remotePeers cmd idx errs ch) =
   snd (sendRemotePeers w' remotePeers cmd idx' errs' ch)"
proof (induction remotePeers arbitrary: idx errs ch idx' errs')
  case Nil
  then show ?case by simp
next
  case (Cons remotePeer rest)
  have "snd (invokeServiceCmd w remotePeer cmd ch) = snd (invokeServiceCmd w' remotePeer cmd ch)"
    by (rule invokeServiceCmd_signals)
  then show ?case
    using Cons.IH by (simp add: case_prod_unfold Let_def)
qed

lemma sendRemotePeers_errs:
  "idx + 1 + length remotePeers \<le> length errs \<Longrightarrow>
   fst (sendRemotePeers w remotePeers cmd idx errs ch) =
     take (idx + 1) errs @ map (\<lambda>cp. fst (invokeServiceCmd w cp cmd [])) remotePeers @
     drop (idx + 1 + length remotePeers) errs"
proof (induction remotePeers arbitrary: idx errs ch)
  case Nil
  then show ?case by simp
next
  case (Cons remotePeer rest)
  let ?err = "fst (invokeServiceCmd w remotePeer cmd ch)"
  let ?ch = "snd (invokeServiceCmd w remotePeer cmd ch)"
  have len: "Suc idx + 1 + length rest \<le> length (errs[idx + 1 := ?err])"
    using Cons.prems by simp
  have lt: "idx + 1 < length errs" using Cons.prems by simp
  have "fst (sendRemotePeers w (remotePeer # rest) cmd idx errs ch) =
        fst (sendRemotePeers w rest cmd (Suc idx) (errs[idx + 1 := ?err]) ?ch)"
    by (simp add: case_prod_unfold Let_def)
  also have "\<dots> = take (Suc idx + 1) (errs[idx + 1 := ?err]) @
                   map (\<lambda>cp. fst (invokeServiceCmd w cp cmd [])) rest @
                   drop (Suc idx + 1 + length rest) (errs[idx + 1 := ?err])"
    using Cons.IH [OF len] by simp
  also have "take (Suc idx + 1) (errs[idx + 1 := ?err]) = take (idx + 1) errs @ [?err]"
    using lt by (simp add: take_Suc_conv_app_nth)
  also have "drop (Suc idx + 1 + length rest) (errs[idx + 1 := ?err]) =
             drop (idx + 1 + length (remotePeer # rest)) errs"
    by simp
  also have "?err = fst (invokeServiceCmd w remotePeer cmd [])"
    by (rule invokeServiceCmd_err)
  finally show ?case by simp
qed

lemma sendServiceCmd_body_eq:
  "cps \<noteq> [] \<Longrightarrow>
   sendServiceCmd_body w cps cmd ch =
     Returns (map (\<lambda>cp. fst (invokeServiceCmd w cp cmd [])) cps,
              snd (invokeServiceCmd w (hd cps) cmd
                     (snd (sendRemotePeers w (tl cps) cmd 0
                             (replicate (length cps) None) ch))))"
proof -
  assume "cps \<noteq> []"
  then obtain cp0 remotePeers where cps: "cps = cp0 # remotePeers" by (cases cps) auto
  let ?errs = "replicate (length cps) (None :: error option)"
  have "fst (sendRemotePeers w remotePeers cmd 0 ?errs ch) =
        take 1 ?errs @ map (\<lambda>cp. fst (invokeServiceCmd w cp cmd [])) remotePeers @
        drop (1 + length remotePeers) ?errs"
    using sendRemotePeers_errs [of 0 remotePeers ?errs w cmd ch] by (simp add: cps)
  then have remote: "fst (sendRemotePeers w remotePeers cmd 0 ?errs ch) =
        None # map (\<lambda>cp. fst (invokeServiceCmd w cp cmd [])) remotePeers"
    by (simp add: cps)
  show ?thesis
    using remote invokeServiceCmd_err [of w cp0 cmd]
    by (simp add: sendServiceCmd_body_def cps case_prod_unfold Let_def)
qed

text \<open>
  C6: for every peer list and every outcome of the peers' Stop and Restart calls
  (every \<open>w\<close>, \<open>w'\<close>), what the caller of \<open>sendServiceCmd\<close> sees does not depend on
  those outcomes; on a peer list that is not empty the function returns, slot \<open>i\<close>
  of \<open>errs\<close> holds the error of peer \<open>i\<close> of the list when the function ends, and
  nothing of \<open>errs\<close> reaches the caller.
\<close>

theorem sendServiceCmd_swallows_errors:
  "sendServiceCmd w cps cmd ch = sendServiceCmd w' cps cmd ch \<and>
   (cps \<noteq> [] \<longrightarrow>
      (\<exists>ch'. sendServiceCmd_body w cps cmd ch =
                 Returns (map (\<lambda>cp. fst (invokeServiceCmd w cp cmd [])) cps, ch') \<and>
             sendServiceCmd w cps cmd ch = Returns ch'))"
proof (cases "cps = []")
  case True
  then show ?thesis by (simp add: sendServiceCmd_def sendServiceCmd_body_def)
next
  case False
  let ?rch = "\<lambda>w. snd (sendRemotePeers w (tl cps) cmd 0 (replicate (length cps) None) ch)"
  have "?rch w = ?rch w'" by (rule sendRemotePeers_signals)
  then have "snd (invokeServiceCmd w (hd cps) cmd (?rch w)) =
             snd (invokeServiceCmd w' (hd cps) cmd (?rch w'))"
    using invokeServiceCmd_signals [of w "hd cps" cmd "?rch w" w'] by simp
  then show ?thesis
    using False by (simp add: sendServiceCmd_def sendServiceCmd_body_eq)
qed

theorem sendServiceCmd_swallows_errors_witness:
  "examplePeers \<noteq> [] \<and>
   sendServiceCmd_body exampleWorld examplePeers serviceStop [] =
     Returns ([None, Some (otherError ''unreachable''), None], [serviceStop]) \<and>
   sendServiceCmd exampleWorld examplePeers serviceStop [] = Returns [serviceStop] \<and>
   sendServiceCmd (exampleWorld\<lparr>rpcService := \<lambda>rc method. None\<rparr>) examplePeers serviceStop [] =
     Returns [serviceStop]"
  using sendServiceCmd_swallows_errors
    [of exampleWorld examplePeers serviceStop "[]" "exampleWorld\<lparr>rpcService := \<lambda>rc method. None\<rparr>"]
  by (simp add: sendServiceCmd_def sendServiceCmd_body_def exampleWorld_def examplePeers_def)

subsection \<open>The error reduction and the fan-out of listPeerLocksInfo\<close>








lemma listRemotePeers_eq:
  "idx + length remotePeers \<le> length allLocks \<Longrightarrow> length errs = length allLocks \<Longrightarrow>
   listRemotePeers w remotePeers bucket pfx relTime idx allLocks errs =
     (take idx allLocks @ map fst (peerOutcomes w remotePeers bucket pfx relTime) @
        drop (idx + length remotePeers) allLocks,
      take idx errs @ map snd (peerOutcomes w remotePeers bucket pfx relTime) @
        drop (idx + length remotePeers) errs)"
proof (induction remotePeers arbitrary: idx allLocks errs)
  case Nil
  then show ?case by (simp add: peerOutcomes_def)
next
  case (Cons remotePeer rest)
  let ?o = "ListLocks w (cmdRunner remotePeer) bucket pfx relTime"
  have lt: "idx < length allLocks" "idx < length errs" using Cons.prems by simp_all
  have len: "Suc idx + length rest \<le> length (allLocks[idx := fst ?o])"
    "length (errs[idx := snd ?o]) = length (allLocks[idx := fst ?o])"
    using Cons.prems by simp_all
  have "listRemotePeers w (remotePeer # rest) bucket pfx relTime idx allLocks errs =
        listRemotePeers w rest bucket pfx relTime (Suc idx)
          (allLocks[idx := fst ?o]) (errs[idx := snd ?o])"
    by (simp add: case_prod_unfold Let_def)
  also have "\<dots> =
     (take (Suc idx) (allLocks[idx := fst ?o]) @ map fst (peerOutcomes w rest bucket pfx relTime) @
        drop (Suc idx + length rest) (allLocks[idx := fst ?o]),
      take (Suc idx) (errs[idx := snd ?o]) @ map snd (peerOutcomes w rest bucket pfx relTime) @
        drop (Suc idx + length rest) (errs[idx := snd ?o]))"
    by (rule Cons.IH [OF len])
  also have "take (Suc idx) (allLocks[idx := fst ?o]) = take idx allLocks @ [fst ?o]"
    using lt by (simp add: take_Suc_conv_app_nth)
  also have "take (Suc idx) (errs[idx := snd ?o]) = take idx errs @ [snd ?o]"
    using lt by (simp add: take_Suc_conv_app_nth)
  finally show ?case by (simp add: peerOutcomes_def)
qed

lemma gatherPeerLocks_eq:
  "peers \<noteq> [] \<Longrightarrow>
   gatherPeerLocks w peers bucket pfx relTime =
     Returns (map fst (peerOutcomes w peers bucket pfx relTime),
              map snd (peerOutcomes w peers bucket pfx relTime))"
proof -
  assume "peers \<noteq> []"
  then obtain localPeer remotePeers where peers: "peers = localPeer # remotePeers"
    by (cases peers) auto
  have "listRemotePeers w remotePeers bucket pfx relTime 1
          (replicate (length peers) []) (replicate (length peers) None) =
        ([] # map fst (peerOutcomes w remotePeers bucket pfx relTime),
         None # map snd (peerOutcomes w remotePeers bucket pfx relTime))"
    by (subst listRemotePeers_eq) (simp_all add: peers)
  then show ?thesis
    by (simp add: gatherPeerLocks_def peers peerOutcomes_def case_prod_unfold Let_def)
qed

lemma mset_appendLock:
  "mset (concat (map snd (appendLock param v paramLockMap))) =
   add_mset v (mset (concat (map snd paramLockMap)))"
  by (induction paramLockMap) auto

lemma mset_groupNodeLocks:
  "mset (concat (map snd (groupNodeLocks nodeLocks paramLockMap))) =
   mset nodeLocks + mset (concat (map snd paramLockMap))"
  by (induction nodeLocks arbitrary: paramLockMap) (simp_all add: mset_appendLock)

lemma mset_groupAllLocks:
  "mset (concat (map snd (groupAllLocks allLocks paramLockMap))) =
   mset (concat allLocks) + mset (concat (map snd paramLockMap))"
  by (induction allLocks arbitrary: paramLockMap) (simp_all add: mset_groupNodeLocks)

lemma mset_concat_map_snd:
  "mset (concat (map snd m)) = (\<Sum>\<^sub># (image_mset (mset \<circ> snd) (mset m)))"
  by (induction m) simp_all

lemma mset_concat_perm:
  "mset m' = mset m \<Longrightarrow> mset (concat (map snd m')) = mset (concat (map snd m))"
  by (simp add: mset_concat_map_snd)

lemma mset_mergePeerLocks:
  "\<forall>m. mset (mapOrder w m) = mset m \<Longrightarrow>
   mset (mergePeerLocks w allLocks) = mset (concat allLocks)"
proof -
  assume "\<forall>m. mset (mapOrder w m) = mset m"
  then have "mset (mapOrder w (groupAllLocks allLocks [])) = mset (groupAllLocks allLocks [])"
    by blast
  then have "mset (concat (map snd (mapOrder w (groupAllLocks allLocks [])))) =
             mset (concat (map snd (groupAllLocks allLocks [])))"
    by (rule mset_concat_perm)
  then show ?thesis by (simp add: mergePeerLocks_def mset_groupAllLocks)
qed

lemma listPeerLocksInfo_cases:
  assumes "peers \<noteq> []"
  shows "listPeerLocksInfo w peers bucket pfx relTime =
     (case reduceErrs (peerErrs w peers bucket pfx relTime) [] of
        (errCount, Some e) \<Rightarrow>
          if length peers div 2 + 1 \<le> errCount then Returns (Inl e)
          else Returns (Inl InsufficientReadQuorum)
      | (errCount, None) \<Rightarrow> Returns (Inr (mergePeerLocks w (peerLocks w peers bucket pfx relTime))))"
  using assms
  by (simp add: listPeerLocksInfo_def gatherPeerLocks_eq peerErrs_def peerLocks_def
      split: prod.splits option.splits)

lemmas admin_eval = listPeerLocksInfo_def gatherPeerLocks_def reduceErrs_def countedErrs_def
  mergePeerLocks_def peerErrs_def peerLocks_def peerOutcomes_def exampleWorld_def
  examplePeers_def exampleRemoteLock_def exampleLocalLock_def

subsection \<open>The quorum rule\<close>



subsection \<open>The merge\<close>

text \<open>
  C5: whatever the order in which \<open>range\<close> yields the keys of \<open>paramLockMap\<close>, the
  merge step returns a list with exactly the entries of all the peers' lists, each as
  often as the peers returned it and unchanged (nothing summed, nothing dropped); so
  every list \<open>listPeerLocksInfo\<close> returns is, as a multiset, the union of its peers'
  lists.
\<close>

theorem mergePeerLocks_multiset:
  assumes "\<forall>m. mset (mapOrder w m) = mset m"
  shows "mset (mergePeerLocks w allLocks) = mset (concat allLocks) \<and>
         (\<forall>locks. listPeerLocksInfo w peers bucket pfx relTime = Returns (Inr locks) \<longrightarrow>
            mset locks = mset (concat (peerLocks w peers bucket pfx relTime)))"
proof -
  have m: "mset (mergePeerLocks w ls) = mset (concat ls)" for ls
    using assms by (rule mset_mergePeerLocks)
  have "mset locks = mset (concat (peerLocks w peers bucket pfx relTime))"
    if ret: "listPeerLocksInfo w peers bucket pfx relTime = Returns (Inr locks)" for locks
  proof (cases "peers = []")
    case True
    then show ?thesis using ret by (simp add: listPeerLocksInfo_def gatherPeerLocks_def)
  next
    case False
    from ret have "locks = mergePeerLocks w (peerLocks w peers bucket pfx relTime)"
      unfolding listPeerLocksInfo_cases [OF False]
      by (auto split: prod.splits option.splits if_splits)
    then show ?thesis by (simp add: m)
  qed
  then show ?thesis using m by blast
qed

theorem mergePeerLocks_multiset_witness:
  "mapOrder exampleWorld = rev \<and>
   peerLocks exampleWorld [examplePeers ! 0, examplePeers ! 2] ''c'' [] 0 =
     [[exampleLocalLock], [exampleRemoteLock]] \<and>
   mergePeerLocks exampleWorld [[exampleLocalLock], [exampleRemoteLock]] =
     [exampleRemoteLock, exampleLocalLock] \<and>
   listPeerLocksInfo exampleWorld [examplePeers ! 0, examplePeers ! 2] ''c'' [] 0 =
     Returns (Inr [exampleRemoteLock, exampleLocalLock]) \<and>
   mset [exampleRemoteLock, exampleLocalLock] = mset [exampleLocalLock, exampleRemoteLock]"
proof -
  have perm: "\<forall>m. mset (mapOrder exampleWorld m) = mset m"
    by (simp add: exampleWorld_def)
  show ?thesis
    using mergePeerLocks_multiset
      [OF perm, of "[[exampleLocalLock], [exampleRemoteLock]]"
        "[examplePeers ! 0, examplePeers ! 2]" "''c''" "[]" 0]
    by (simp add: admin_eval lock_eval)
qed

section \<open>Properties of the multipart upload bookkeeping\<close>

text \<open>
  C9: \<open>isMultipartUpload\<close> and \<open>isUploadIDExists\<close> return a boolean and no error:
  whatever error \<open>fsStatFile\<close> gives, file-not-found or another, the boolean is
  false, and it is true when the stat succeeds.
\<close>

theorem stat_failure_is_false:
  "(\<forall>err. fsStatFile fs (pathJoin fs [fsPath fs, bucket, pfx, uploadsJSONFile fs]) = Inl err \<longrightarrow>
      fst (isMultipartUpload fs bucket pfx) = False) \<and>
   (\<forall>fi. fsStatFile fs (pathJoin fs [fsPath fs, bucket, pfx, uploadsJSONFile fs]) = Inr fi \<longrightarrow>
      fst (isMultipartUpload fs bucket pfx) = True) \<and>
   (\<forall>err. fsStatFile fs (pathJoin fs [fsPath fs, minioMetaMultipartBucket fs,
                 pathJoin fs [bucket, object, uploadID], fsMetaJSONFile fs]) = Inl err \<longrightarrow>
      fst (isUploadIDExists fs bucket object uploadID) = False) \<and>
   (\<forall>fi. fsStatFile fs (pathJoin fs [fsPath fs, minioMetaMultipartBucket fs,
                 pathJoin fs [bucket, object, uploadID], fsMetaJSONFile fs]) = Inr fi \<longrightarrow>
      fst (isUploadIDExists fs bucket object uploadID) = True)"
  by (simp add: isMultipartUpload_def isUploadIDExists_def Let_def)

theorem stat_failure_is_false_witness:
  "fsStatFile exampleFS (pathJoin exampleFS [fsPath exampleFS, ''b'', ''locked'', uploadsJSONFile exampleFS]) =
     Inl (otherError ''permission denied'') \<and>
   fst (isMultipartUpload exampleFS ''b'' ''locked'') = False \<and>
   fsStatFile exampleFS (pathJoin exampleFS [fsPath exampleFS, ''b'', ''none'', uploadsJSONFile exampleFS]) =
     Inl errFileNotFound \<and>
   fst (isMultipartUpload exampleFS ''b'' ''none'') = False \<and>
   fsStatFile exampleFS (pathJoin exampleFS [fsPath exampleFS, ''b'', ''o'', uploadsJSONFile exampleFS]) =
     Inr () \<and>
   fst (isMultipartUpload exampleFS ''b'' ''o'') = True \<and>
   fst (isUploadIDExists exampleFS ''b'' ''o'' ''id1'') = False"
  using stat_failure_is_false [of exampleFS "''b''" "''locked''" "''o''" "''id1''"]
    stat_failure_is_false [of exampleFS "''b''" "''none''" "''o''" "''id1''"]
    stat_failure_is_false [of exampleFS "''b''" "''o''" "''o''" "''id1''"]
  by (simp add: exampleFS_def)

text \<open>
  C10: when the ledger cannot be read from the locked file, \<open>removeUploadID\<close>
  returns the read's error and leaves the locked file and the disk as they were.
  When it is read, the upload id is removed from it; if the ledger is then empty, the
  \<open>uploads.json\<close> file of the object is deleted under the multipart directory, the
  locked file is not written and the deletion's error is returned; otherwise the
  ledger is written to the locked file, nothing is deleted and the write's error is
  returned.
\<close>

theorem removeUploadID_outcome:
  "(\<forall>err. ReadFrom ops rwlk = Inl err \<longrightarrow>
      removeUploadID fs ops bucket object uploadID rwlk disk = (Some err, rwlk, disk)) \<and>
   (\<forall>uploadIDs. ReadFrom ops rwlk = Inr uploadIDs \<and>
        IsEmpty ops (RemoveUploadID ops uploadID uploadIDs) \<longrightarrow>
      removeUploadID fs ops bucket object uploadID rwlk disk =
        (fst (fsDeleteFile ops (pathJoin fs [fsPath fs, minioMetaMultipartBucket fs])
                (pathJoin fs [pathJoin fs [fsPath fs, minioMetaMultipartBucket fs],
                              pathJoin fs [bucket, object, uploadsJSONFile fs]]) disk),
         rwlk,
         snd (fsDeleteFile ops (pathJoin fs [fsPath fs, minioMetaMultipartBucket fs])
                (pathJoin fs [pathJoin fs [fsPath fs, minioMetaMultipartBucket fs],
                              pathJoin fs [bucket, object, uploadsJSONFile fs]]) disk))) \<and>
   (\<forall>uploadIDs. ReadFrom ops rwlk = Inr uploadIDs \<and>
        \<not> IsEmpty ops (RemoveUploadID ops uploadID uploadIDs) \<longrightarrow>
      removeUploadID fs ops bucket object uploadID rwlk disk =
        (fst (WriteTo ops (RemoveUploadID ops uploadID uploadIDs) rwlk),
         snd (WriteTo ops (RemoveUploadID ops uploadID uploadIDs) rwlk),
         disk))"
  by (simp add: removeUploadID_def Let_def case_prod_unfold)

theorem removeUploadID_outcome_witness:
  "removeUploadID exampleFS exampleLedger ''b'' ''o'' ''id1'' None
       [''/data/.minio.sys/multipart/b/o/uploads.json''] =
     (Some (otherError ''unexpected end of JSON input''), None,
      [''/data/.minio.sys/multipart/b/o/uploads.json'']) \<and>
   removeUploadID exampleFS exampleLedger ''b'' ''o'' ''id1'' (Some [''id1''])
       [''/data/.minio.sys/multipart/b/o/uploads.json''] =
     (None, Some [''id1''], []) \<and>
   removeUploadID exampleFS exampleLedger ''b'' ''o'' ''id1'' (Some [''id1'', ''id2''])
       [''/data/.minio.sys/multipart/b/o/uploads.json''] =
     (None, Some [''id2''], [''/data/.minio.sys/multipart/b/o/uploads.json''])"
  using removeUploadID_outcome
      [of exampleLedger None exampleFS "''b''" "''o''" "''id1''"
        "[''/data/.minio.sys/multipart/b/o/uploads.json'']"]
    removeUploadID_outcome
      [of exampleLedger "Some [''id1'']" exampleFS "''b''" "''o''" "''id1''"
        "[''/data/.minio.sys/multipart/b/o/uploads.json'']"]
    removeUploadID_outcome
      [of exampleLedger "Some [''id1'', ''id2'']" exampleFS "''b''" "''o''" "''id1''"
        "[''/data/.minio.sys/multipart/b/o/uploads.json'']"]
  by (simp add: exampleLedger_def exampleFS_def)

end
